theory Spec2Isabelle
  imports Main "HOL-Library.AList"
begin

section \<open>Python dictionaries\<close>

text \<open>
  A Python \<open>dict\<close> keeps its keys in insertion order and holds each key once. It is
  modelled as an association list; \<open>AList.update\<close> is \<open>d[k] = v\<close> (the value is replaced
  in place when the key is there, the pair is appended otherwise).
\<close>

type_synonym 'v dict = "(string \<times> 'v) list"

text \<open>\<open>k in d\<close>\<close>

definition dict_contains :: "string \<Rightarrow> 'v dict \<Rightarrow> bool" where
  "dict_contains k d = (map_of d k \<noteq> None)"

text \<open>\<open>d.keys()\<close>\<close>

definition dict_keys :: "'v dict \<Rightarrow> string list" where
  "dict_keys d = map fst d"

text \<open>\<open>d.get(k, default)\<close>\<close>

definition dict_get :: "'v dict \<Rightarrow> string \<Rightarrow> 'v \<Rightarrow> 'v" where
  "dict_get d k dflt = (case map_of d k of None \<Rightarrow> dflt | Some v \<Rightarrow> v)"

text \<open>\<open>a | b\<close>: a new dict with the entries of \<open>a\<close>, then those of \<open>b\<close>, \<open>b\<close> winning.\<close>

definition dict_or :: "'v dict \<Rightarrow> 'v dict \<Rightarrow> 'v dict" where
  "dict_or a b = fold (\<lambda>(k, v) d. AList.update k v d) b a"

section \<open>Exceptions\<close>

text \<open>
  The exception classes the module meets: its own \<open>DependencyNotFoundError\<close>, declared
  \<open>class DependencyNotFoundError(KeyError)\<close>, and the built-in chain above \<open>KeyError\<close>.
\<close>

datatype exc_class =
  BaseException | Exception | LookupError | KeyError | DependencyNotFoundError

fun bases :: "exc_class \<Rightarrow> exc_class option" where
  "bases DependencyNotFoundError = Some KeyError"
| "bases KeyError = Some LookupError"
| "bases LookupError = Some Exception"
| "bases Exception = Some BaseException"
| "bases BaseException = None"

fun depth :: "exc_class \<Rightarrow> nat" where
  "depth BaseException = 0"
| "depth Exception = 1"
| "depth LookupError = 2"
| "depth KeyError = 3"
| "depth DependencyNotFoundError = 4"

function issubclass :: "exc_class \<Rightarrow> exc_class \<Rightarrow> bool" where
  "issubclass c d =
     (if c = d then True
      else case bases c of None \<Rightarrow> False | Some b \<Rightarrow> issubclass b d)"
  by pat_completeness auto
termination
proof (relation "measure (\<lambda>(c, d). depth c)")
  show "wf (measure (\<lambda>(c, d). depth c))" by simp
next
  fix c d b :: exc_class
  assume "bases c = Some b"
  then show "((b, d), (c, d)) \<in> measure (\<lambda>(c, d). depth c)"
    by (cases c) auto
qed

declare issubclass.simps [simp del]

text \<open>An annotation object, as far as the module looks at it: \<open>getattr(anno, "__name__", None)\<close>.\<close>

datatype anno = Anno (dunder_name: "string option")

text \<open>
  A callable, as far as the module looks at it: its \<open>__annotations__\<close> attribute (\<open>None\<close>
  when the attribute is missing or is \<open>None\<close>), and a name that tells callables apart.
\<close>

record pyfunc =
  func_name :: string
  dunder_annotations :: "(string \<times> anno) list option"

text \<open>
  Exception instances. \<open>DependencyNotFoundError.__init__\<close> calls \<open>super().__init__(name)\<close>,
  which sets \<open>args\<close>, and then sets \<open>name\<close>, \<open>func\<close> and \<open>available\<close>. \<open>Raised\<close> is any other
  exception, raised by a target callable or by the body of a \<open>with\<close> statement.
\<close>

datatype 'x py_exception =
    KeyError_inst (exc_args: "string list")
  | DependencyNotFoundError_inst (exc_args: "string list") (exc_name: string)
      (exc_func: pyfunc) (exc_available: "string list")
  | Raised exc_class 'x

fun class_of :: "'x py_exception \<Rightarrow> exc_class" where
  "class_of (KeyError_inst _) = KeyError"
| "class_of (DependencyNotFoundError_inst _ _ _ _) = DependencyNotFoundError"
| "class_of (Raised c _) = c"

text \<open>\<open>isinstance(e, cls)\<close>, which is what \<open>except cls\<close> tests.\<close>

definition isinstance :: "'x py_exception \<Rightarrow> exc_class \<Rightarrow> bool" where
  "isinstance e cls = issubclass (class_of e) cls"

definition DependencyNotFoundError_init ::
  "string \<Rightarrow> pyfunc \<Rightarrow> string list \<Rightarrow> 'x py_exception" where
  "DependencyNotFoundError_init name func available =
     DependencyNotFoundError_inst [name] name func available"

text \<open>
  \<open>try: ... except cls as e: handler(e)\<close> around a computation that has ended with
  \<open>outcome\<close>: the handler runs when the exception is an instance of \<open>cls\<close>.
\<close>

definition try_except ::
  "exc_class \<Rightarrow> ('x py_exception \<Rightarrow> 's \<Rightarrow> ('x py_exception + 'r) \<times> 's)
     \<Rightarrow> ('x py_exception + 'r) \<times> 's \<Rightarrow> ('x py_exception + 'r) \<times> 's" where
  "try_except cls handler outcome =
     (case outcome of
        (Inl e, s) \<Rightarrow> if isinstance e cls then handler e s else (Inl e, s)
      | (Inr r, s) \<Rightarrow> (Inr r, s))"

section \<open>Frames\<close>

text \<open>
  A frame object: its local variables and the frame of its caller (\<open>None\<close> for the
  outermost frame). The module reads and writes one local variable only, \<open>DEP_VAR\<close>,
  and only ever stores a dict there, so the locals are a dict of dicts.
\<close>

datatype 'v frame = Frame (f_locals: "'v dict dict") (f_back: "'v frame option")

definition DEP_VAR :: string where
  "DEP_VAR = ''__wtfdi_deps__''"

section \<open>Building the dependencies of the enclosing frames\<close>

text \<open>
  The loop of \<open>_build_dependencies\<close>:
  \<^verbatim>\<open>
    while frame.f_back:
        if DEP_VAR in frame.f_locals:
            dependencies.append(frame.f_locals[DEP_VAR])
  \<close>
  The body never assigns \<open>frame\<close>. A loop that may not end is a partial function:
  \<open>None\<close> is "does not return".
\<close>

partial_function (option) build_loop :: "'v frame \<Rightarrow> 'v dict list \<Rightarrow> 'v dict list option" where
  "build_loop frame dependencies =
     (if f_back frame \<noteq> None then
        (case map_of (f_locals frame) DEP_VAR of
           Some d \<Rightarrow> build_loop frame (dependencies @ [d])
         | None \<Rightarrow> build_loop frame dependencies)
      else Some dependencies)"

text \<open>\<open>reduce(lambda a, b: a | b, dependencies, {})\<close>\<close>

definition build_dependencies :: "'v frame \<Rightarrow> 'v dict option" where
  "build_dependencies frame =
     (case build_loop frame [] of
        None \<Rightarrow> None
      | Some dependencies \<Rightarrow> Some (foldl dict_or [] dependencies))"

section \<open>The context manager\<close>

text \<open>
  \<open>context(**deps)\<close> up to its \<open>yield\<close>. \<open>frame\<close> is the frame that runs the \<open>with\<close>
  statement (\<open>inspect.currentframe().f_back.f_back\<close>). The assignment to
  \<open>frame.f_locals[DEP_VAR]\<close> returns the frame updated.
\<close>

definition context_enter :: "'v dict \<Rightarrow> 'v frame \<Rightarrow> 'v frame option" where
  "context_enter deps frame =
     (case build_dependencies frame of
        None \<Rightarrow> None
      | Some outer_dependencies \<Rightarrow>
          Some (Frame (AList.update DEP_VAR (dict_or outer_dependencies deps) (f_locals frame))
                  (f_back frame)))"

text \<open>
  The \<open>finally\<close> clause: \<open>frame.f_locals.pop(DEP_VAR)\<close>. \<open>pop\<close> without a default raises
  \<open>KeyError\<close> when the key is missing.
\<close>

definition context_exit :: "'v frame \<Rightarrow> 'x py_exception + 'v frame" where
  "context_exit frame =
     (if dict_contains DEP_VAR (f_locals frame)
      then Inr (Frame (AList.delete DEP_VAR (f_locals frame)) (f_back frame))
      else Inl (KeyError_inst [DEP_VAR]))"

text \<open>
  The statement \<open>with context(**deps): body\<close> run in \<open>frame\<close>. The body runs in the same
  frame and may change its locals; it ends with a value or an exception, or does not
  return. The \<open>finally\<close> clause runs in both cases; an exception raised there replaces the
  outcome of the body.
\<close>

definition with_stmt ::
  "'v dict \<Rightarrow> ('v frame \<Rightarrow> (('x py_exception + 'r) \<times> 'v frame) option) \<Rightarrow> 'v frame
     \<Rightarrow> (('x py_exception + 'r) \<times> 'v frame) option" where
  "with_stmt deps body frame =
     (case context_enter deps frame of
        None \<Rightarrow> None
      | Some entered \<Rightarrow>
          (case body entered of
             None \<Rightarrow> None
           | Some (outcome, after_body) \<Rightarrow>
               (case context_exit after_body of
                  Inl e \<Rightarrow> Some (Inl e, after_body)
                | Inr exited \<Rightarrow> Some (outcome, exited))))"

section \<open>The injection wrapper\<close>

text \<open>\<open>x or {}\<close>: an empty dict is falsy.\<close>

definition or_empty :: "(string \<times> anno) list option \<Rightarrow> (string \<times> anno) list" where
  "or_empty x = (case x of None \<Rightarrow> [] | Some d \<Rightarrow> if d = [] then [] else d)"

definition resolve_dependencies :: "pyfunc \<Rightarrow> string list" where
  "resolve_dependencies func =
     map fst (filter (\<lambda>(name, anno). dunder_name anno = Some ''Depends'')
                (or_empty (dunder_annotations func)))"

text \<open>
  The loop of \<open>_wrapper\<close>:
  \<^verbatim>\<open>
    for dep in _resolve_dependencies(func):
        if dep not in source:
            raise DependencyNotFoundError(dep, func, source.keys())
        kwargs[dep] = source[dep]
  \<close>
\<close>

fun inject ::
  "pyfunc \<Rightarrow> 'v dict \<Rightarrow> string list \<Rightarrow> 'v dict \<Rightarrow> 'x py_exception + 'v dict" where
  "inject func source [] kwargs = Inr kwargs"
| "inject func source (dep # deps) kwargs =
     (case map_of source dep of
        None \<Rightarrow> Inl (DependencyNotFoundError_init dep func (dict_keys source))
      | Some v \<Rightarrow> inject func source deps (AList.update dep v kwargs))"

text \<open>
  The frame of \<open>_wrapper\<close> at the call \<open>func(*args, **kwargs)\<close>: its caller is \<open>frame\<close>, and
  the local variables that hold a dict are \<open>kwargs\<close> and \<open>source\<close>. \<open>_wrapper\<close> assigns no
  variable \<open>DEP_VAR\<close>.
\<close>

definition wrapper_frame :: "'v frame \<Rightarrow> 'v dict \<Rightarrow> 'v dict \<Rightarrow> 'v frame" where
  "wrapper_frame frame source kwargs =
     Frame [(''kwargs'', kwargs), (''source'', source)] (Some frame)"

text \<open>
  \<open>with_context(func)\<close> returns \<open>_wrapper\<close>. \<open>call\<close> is what calling \<open>func(*args, **kwargs)\<close>
  does: from the frame it is called from, the arguments and the state of the world it
  gives a result or an exception, and the new state. \<open>frame\<close> is the frame of the caller
  of \<open>_wrapper\<close> (\<open>inspect.currentframe().f_back\<close>); \<open>func\<close> is called from the frame of
  \<open>_wrapper\<close>. A wrapped function is a callable of the same kind, so that
  \<open>with_context g (with_context f call)\<close> is \<open>with_context(with_context(f))\<close>.
\<close>

definition with_context ::
  "pyfunc \<Rightarrow> ('v frame \<Rightarrow> 'v list \<Rightarrow> 'v dict \<Rightarrow> 's \<Rightarrow> ('x py_exception + 'r) \<times> 's)
     \<Rightarrow> 'v frame \<Rightarrow> 'v list \<Rightarrow> 'v dict \<Rightarrow> 's \<Rightarrow> ('x py_exception + 'r) \<times> 's" where
  "with_context func call frame args kwargs s =
     (let source = dict_get (f_locals frame) DEP_VAR [] in
      case inject func source (resolve_dependencies func) kwargs of
        Inl e \<Rightarrow> (Inl e, s)
      | Inr kwargs' \<Rightarrow> call (wrapper_frame frame source kwargs') args kwargs' s)"

text \<open>
  What \<open>def\<close> stores in \<open>__annotations__\<close>: the annotated parameters in order, then the
  return annotation under the key \<open>return\<close>.
\<close>

definition def_annotations ::
  "(string \<times> anno option) list \<Rightarrow> anno option \<Rightarrow> (string \<times> anno) list" where
  "def_annotations params ret =
     concat (map (\<lambda>(p, a). case a of None \<Rightarrow> [] | Some an \<Rightarrow> [(p, an)]) params)
     @ (case ret of None \<Rightarrow> [] | Some an \<Rightarrow> [(''return'', an)])"

text \<open>The alias \<open>Depends\<close>, the class \<open>str\<close> and the constant \<open>None\<close> used as annotations.\<close>

definition Depends :: anno where
  "Depends = Anno (Some ''Depends'')"

definition str_anno :: anno where
  "str_anno = Anno (Some ''str'')"

definition None_anno :: anno where
  "None_anno = Anno None"

text \<open>\<open>def say_hello(to_who: str, logger: Depends) -> None\<close>\<close>

definition say_hello :: pyfunc where
  "say_hello = \<lparr> func_name = ''say_hello'',
     dunder_annotations = Some (def_annotations
       [(''to_who'', Some str_anno), (''logger'', Some Depends)] (Some None_anno)) \<rparr>"

section \<open>Entering a scope\<close>

lemma build_loop_returns_only_outermost:
  assumes "build_loop frame dependencies = Some r"
  shows "f_back frame = None"
proof (rule build_loop.raw_induct
    [where P = "\<lambda>frame dependencies r. f_back frame = None", OF _ assms])
  fix loop :: "'a frame \<Rightarrow> 'a dict list \<Rightarrow> 'a dict list option"
  fix fr :: "'a frame" and deps r' :: "'a dict list"
  assume ih: "\<And>fr deps r'. loop fr deps = Some r' \<Longrightarrow> f_back fr = None"
  assume step: "(if f_back fr \<noteq> None then
        (case map_of (f_locals fr) DEP_VAR of
           Some d \<Rightarrow> loop fr (deps @ [d])
         | None \<Rightarrow> loop fr deps)
      else Some deps) = Some r'"
  show "f_back fr = None"
  proof (cases "f_back fr")
    case None
    then show ?thesis .
  next
    case (Some caller)
    with step ih show ?thesis
      by (cases "map_of (f_locals fr) DEP_VAR") auto
  qed
qed

lemma build_loop_with_caller:
  assumes "f_back frame = Some caller"
  shows "build_loop frame dependencies = None"
proof (cases "build_loop frame dependencies")
  case None
  then show ?thesis .
next
  case (Some r)
  then have "f_back frame = None"
    by (rule build_loop_returns_only_outermost)
  with assms show ?thesis by simp
qed

lemma build_loop_outermost:
  assumes "f_back frame = None"
  shows "build_loop frame dependencies = Some dependencies"
  by (subst build_loop.simps) (simp add: assms)

lemma build_dependencies_with_caller:
  "f_back frame = Some caller \<Longrightarrow> build_dependencies frame = None"
  by (simp add: build_dependencies_def build_loop_with_caller)

lemma build_dependencies_outermost:
  "f_back frame = None \<Longrightarrow> build_dependencies frame = Some []"
  by (simp add: build_dependencies_def build_loop_outermost)

lemma context_enter_with_caller:
  "f_back frame = Some caller \<Longrightarrow> context_enter deps frame = None"
  by (simp add: context_enter_def build_dependencies_with_caller)

lemma context_enter_outermost:
  "context_enter deps (Frame locals None) =
     Some (Frame (AList.update DEP_VAR (dict_or [] deps) locals) None)"
  by (simp add: context_enter_def build_dependencies_outermost)

text \<open>
  C4. Entering a scope always completes, for every chain of enclosing call frames, in
  particular at a call site that itself has a caller. The code does not: the loop of
  \<open>_build_dependencies\<close> tests \<open>frame.f_back\<close> and never moves \<open>frame\<close>, so in a frame
  that has a caller it does not return. Here \<open>with context(a=1): ...\<close> is run in the
  frame of a function called from the outermost frame: entering the scope does not
  return, and neither does the \<open>with\<close> statement, whatever its body.
\<close>

theorem context_enter_never_returns_in_called_frame:
  "context_enter [(''a'', 1::int)] (Frame [] (Some (Frame [] None))) = None
   \<and> with_stmt [(''a'', 1::int)] (\<lambda>fr. Some (Inr (), fr)) (Frame [] (Some (Frame [] None)))
       = (None :: ((unit py_exception + unit) \<times> int frame) option)"
proof -
  have has_caller: "f_back (Frame [] (Some (Frame [] None)) :: int frame) = Some (Frame [] None)"
    by simp
  have enter: "context_enter [(''a'', 1::int)] (Frame [] (Some (Frame [] None))) = None"
    using has_caller by (rule context_enter_with_caller)
  then show ?thesis
    by (simp add: with_stmt_def)
qed

section \<open>Injection\<close>

lemma inject_no_dependencies:
  "inject func source [] kwargs = Inr kwargs"
  by simp

lemma inject_first_missing:
  assumes "\<forall>d \<in> set pre. dict_contains d source"
    and "\<not> dict_contains dep source"
  shows "inject func source (pre @ dep # rest) kwargs =
           Inl (DependencyNotFoundError_init dep func (dict_keys source))"
  using assms
proof (induction pre arbitrary: kwargs)
  case Nil
  then show ?case by (simp add: dict_contains_def)
next
  case (Cons d pre)
  then obtain v where "map_of source d = Some v"
    by (auto simp: dict_contains_def)
  with Cons show ?case by simp
qed

lemma resolve_dependencies_none:
  assumes "\<forall>(name, anno) \<in> set (or_empty (dunder_annotations func)).
             dunder_name anno \<noteq> Some ''Depends''"
  shows "resolve_dependencies func = []"
  using assms by (auto simp: resolve_dependencies_def filter_empty_conv)

lemma wrapper_frame_holds_no_bindings:
  "dict_get (f_locals (wrapper_frame frame source kwargs)) DEP_VAR [] = []"
  by (simp add: wrapper_frame_def dict_get_def DEP_VAR_def)

text \<open>
  C5. A callable with zero dependency-marked parameters, once wrapped, behaves exactly
  as the unwrapped one. The code does not, in two ways. \<open>_resolve_dependencies\<close> goes
  through all of \<open>__annotations__\<close>, where \<open>def\<close> stores the return annotation as well:
  \<open>def make(x: str) -> Depends\<close> has no marked parameter, and the wrapped \<open>make("a")\<close>
  with no scope open raises \<open>DependencyNotFoundError('return')\<close> where \<open>make("a")\<close>
  returns. And \<open>_wrapper\<close> calls \<open>func\<close> from its own frame, which holds no bindings: the
  wrapped \<open>say_hello\<close> is itself a callable, \<open>def _wrapper(*args, **kwargs) -> T\<close>, with no
  marked parameter; called from a frame that holds \<open>logger\<close> it passes \<open>logger\<close> on, but
  wrapped once more and called from the same frame with the same arguments it raises
  \<open>DependencyNotFoundError('logger')\<close>.
\<close>

theorem wrapped_call_differs_without_marked_parameter:
  "dunder_name str_anno \<noteq> Some ''Depends''
   \<and> with_context \<lparr> func_name = ''make'',
          dunder_annotations = Some (def_annotations [(''x'', Some str_anno)] (Some Depends)) \<rparr>
        (\<lambda>fr args kwargs s. ((Inr args :: unit py_exception + string list), s))
        (Frame [] None) [''a''] [] ()
     = (Inl (DependencyNotFoundError_inst [''return''] ''return''
          \<lparr> func_name = ''make'',
            dunder_annotations = Some (def_annotations [(''x'', Some str_anno)] (Some Depends)) \<rparr>
          []), ())
   \<and> with_context \<lparr> func_name = ''make'',
          dunder_annotations = Some (def_annotations [(''x'', Some str_anno)] (Some Depends)) \<rparr>
        (\<lambda>fr args kwargs s. ((Inr args :: unit py_exception + string list), s))
        (Frame [] None) [''a''] [] ()
     \<noteq> (Inr [''a''], ())
   \<and> with_context say_hello
        (\<lambda>fr args kwargs s. ((Inr kwargs :: unit py_exception + string dict), s))
        (Frame [(DEP_VAR, [(''logger'', ''print'')])] None) [''Kotlin''] [] ()
     = (Inr [(''logger'', ''print'')], ())
   \<and> with_context \<lparr> func_name = ''_wrapper'', dunder_annotations =
          Some (def_annotations [(''args'', None), (''kwargs'', None)] (Some (Anno (Some ''T'')))) \<rparr>
        (with_context say_hello
           (\<lambda>fr args kwargs s. ((Inr kwargs :: unit py_exception + string dict), s)))
        (Frame [(DEP_VAR, [(''logger'', ''print'')])] None) [''Kotlin''] [] ()
     = (Inl (DependencyNotFoundError_inst [''logger''] ''logger'' say_hello []), ())"
proof -
  let ?make = "\<lparr> func_name = ''make'',
          dunder_annotations = Some (def_annotations [(''x'', Some str_anno)] (Some Depends)) \<rparr>"
  let ?ret = "\<lambda>(fr :: string frame) (args :: string list) (kwargs :: string dict) (s :: unit).
        ((Inr args :: unit py_exception + string list), s)"
  let ?kw = "\<lambda>(fr :: string frame) (args :: string list) (kwargs :: string dict) (s :: unit).
        ((Inr kwargs :: unit py_exception + string dict), s)"
  let ?w = "\<lparr> func_name = ''_wrapper'', dunder_annotations =
          Some (def_annotations [(''args'', None), (''kwargs'', None)] (Some (Anno (Some ''T'')))) \<rparr>"
  let ?fr = "Frame [(DEP_VAR, [(''logger'', ''print'')])] None"
  have param: "dunder_name str_anno \<noteq> Some ''Depends''"
    by (simp add: str_anno_def)
  have make_deps: "resolve_dependencies ?make = [''return'']"
    by (simp add: resolve_dependencies_def or_empty_def def_annotations_def
        str_anno_def Depends_def)
  have make: "with_context ?make ?ret (Frame [] None) [''a''] [] ()
     = (Inl (DependencyNotFoundError_inst [''return''] ''return'' ?make []), ())"
    by (simp add: with_context_def make_deps dict_get_def dict_keys_def
        DependencyNotFoundError_init_def)
  have hello_deps: "resolve_dependencies say_hello = [''logger'']"
    by (simp add: resolve_dependencies_def or_empty_def def_annotations_def say_hello_def
        Depends_def str_anno_def None_anno_def)
  have w_deps: "resolve_dependencies ?w = []"
    by (simp add: resolve_dependencies_def or_empty_def def_annotations_def)
  have once: "with_context say_hello ?kw ?fr [''Kotlin''] [] ()
     = (Inr [(''logger'', ''print'')], ())"
    by (simp add: with_context_def hello_deps dict_get_def)
  have twice: "with_context ?w (with_context say_hello ?kw) ?fr [''Kotlin''] [] ()
     = (Inl (DependencyNotFoundError_inst [''logger''] ''logger'' say_hello []), ())"
    by (simp add: with_context_def [of ?w] w_deps with_context_def [of say_hello] hello_deps
        wrapper_frame_holds_no_bindings dict_keys_def DependencyNotFoundError_init_def)
  show ?thesis
    using param make once twice by simp
qed

text \<open>
  C5 as the code has it. When no entry of \<open>__annotations__\<close>, parameter or return, is
  named \<open>Depends\<close>, the wrapped callable raises no \<open>DependencyNotFoundError\<close> of its own:
  called with any arguments, from any frame (with or without a scope open), it does what
  calling the original with the same arguments from the frame of \<open>_wrapper\<close> does. That
  frame holds no bindings. For an original whose behaviour does not depend on the frame
  that calls it, this is what the unwrapped call does.
\<close>

theorem with_context_pass_through:
  fixes call :: "'v frame \<Rightarrow> 'v list \<Rightarrow> 'v dict \<Rightarrow> 's \<Rightarrow> ('x py_exception + 'r) \<times> 's"
  assumes "\<forall>(name, anno) \<in> set (or_empty (dunder_annotations func)).
             dunder_name anno \<noteq> Some ''Depends''"
  shows "with_context func call frame args kwargs s
           = call (wrapper_frame frame (dict_get (f_locals frame) DEP_VAR []) kwargs)
               args kwargs s
         \<and> dict_get (f_locals (wrapper_frame frame (dict_get (f_locals frame) DEP_VAR []) kwargs))
             DEP_VAR [] = []
         \<and> ((\<forall>fr. call fr args kwargs s = call frame args kwargs s) \<longrightarrow>
              with_context func call frame args kwargs s = call frame args kwargs s)"
  by (simp add: with_context_def resolve_dependencies_none [OF assms]
      wrapper_frame_holds_no_bindings)

theorem with_context_pass_through_witness:
  "dunder_name str_anno \<noteq> Some ''Depends''
   \<and> dunder_name None_anno \<noteq> Some ''Depends''
   \<and> with_context \<lparr> func_name = ''plain'',
       dunder_annotations = Some (def_annotations [(''x'', Some str_anno)] (Some None_anno)) \<rparr>
       (\<lambda>fr args kwargs s. (Inr (length args), Suc s))
       (Frame [(DEP_VAR, [(''logger'', ''print'')])] None) [''a''] [] (0::nat)
     = ((Inr (1::nat) :: unit py_exception + nat), 1::nat)"
proof -
  let ?f = "\<lparr> func_name = ''plain'',
       dunder_annotations = Some (def_annotations [(''x'', Some str_anno)] (Some None_anno)) \<rparr>"
  let ?call = "\<lambda>(fr :: string frame) (args :: string list) (kwargs :: string dict) (s :: nat).
       ((Inr (length args) :: unit py_exception + nat), Suc s)"
  have none: "\<forall>(name, anno) \<in> set (or_empty (dunder_annotations ?f)).
             dunder_name anno \<noteq> Some ''Depends''"
    by (simp add: or_empty_def def_annotations_def str_anno_def None_anno_def)
  have p1: "dunder_name str_anno \<noteq> Some ''Depends''"
    by (simp add: str_anno_def)
  have p2: "dunder_name None_anno \<noteq> Some ''Depends''"
    by (simp add: None_anno_def)
  show ?thesis
    using p1 p2 with_context_pass_through [OF none,
        of ?call "Frame [(DEP_VAR, [(''logger'', ''print'')])] None" "[''a'']" "[]" "0::nat"]
    by simp
qed

text \<open>
  C3. When some dependency-marked name of \<open>func\<close> is absent from the effective context,
  the call raises \<open>DependencyNotFoundError\<close> with the first such name, \<open>func\<close> and the keys
  of the context (no key when no scope is open in the calling frame). The target is not
  called: the outcome does not depend on \<open>call\<close> and the state is the one before the call.
  The names after the first missing one are not looked at: the outcome is the same
  whatever \<open>rest\<close> is.
\<close>

theorem with_context_missing_dependency:
  assumes "resolve_dependencies func = pre @ dep # rest"
    and "source = dict_get (f_locals frame) DEP_VAR []"
    and "\<forall>d \<in> set pre. dict_contains d source"
    and "\<not> dict_contains dep source"
  shows "with_context func call frame args kwargs s =
           (Inl (DependencyNotFoundError_inst [dep] dep func (dict_keys source)), s)
         \<and> (\<not> dict_contains DEP_VAR (f_locals frame) \<longrightarrow> dict_keys source = [])"
proof -
  have "with_context func call frame args kwargs s =
          (Inl (DependencyNotFoundError_inst [dep] dep func (dict_keys source)), s)"
    unfolding with_context_def Let_def assms(2) [symmetric] assms(1)
    by (simp add: inject_first_missing [OF assms(3,4)] DependencyNotFoundError_init_def)
  moreover have "\<not> dict_contains DEP_VAR (f_locals frame) \<longrightarrow> dict_keys source = []"
    using assms(2) by (simp add: dict_contains_def dict_get_def dict_keys_def)
  ultimately show ?thesis by simp
qed

theorem with_context_missing_dependency_witness:
  "resolve_dependencies \<lparr> func_name = ''f'', dunder_annotations = Some (def_annotations
       [(''a'', Some Depends), (''b'', Some Depends), (''c'', Some Depends)] None) \<rparr>
     = [''a''] @ ''b'' # [''c'']
   \<and> [(''a'', 1::int)] = dict_get (f_locals (Frame [(DEP_VAR, [(''a'', 1::int)])] None)) DEP_VAR []
   \<and> dict_contains ''a'' [(''a'', 1::int)]
   \<and> \<not> dict_contains ''b'' [(''a'', 1::int)]
   \<and> with_context \<lparr> func_name = ''f'', dunder_annotations = Some (def_annotations
       [(''a'', Some Depends), (''b'', Some Depends), (''c'', Some Depends)] None) \<rparr>
       (\<lambda>fr args kwargs s. (Inr (length kwargs), Suc s))
       (Frame [(DEP_VAR, [(''a'', 1::int)])] None) [] [] (0::nat)
     = ((Inl (DependencyNotFoundError_inst [''b''] ''b''
          \<lparr> func_name = ''f'', dunder_annotations = Some (def_annotations
            [(''a'', Some Depends), (''b'', Some Depends), (''c'', Some Depends)] None) \<rparr>
          [''a'']) :: unit py_exception + nat), 0)"
proof -
  let ?f = "\<lparr> func_name = ''f'', dunder_annotations = Some (def_annotations
       [(''a'', Some Depends), (''b'', Some Depends), (''c'', Some Depends)] None) \<rparr>"
  let ?src = "[(''a'', 1::int)]"
  let ?fr = "Frame [(DEP_VAR, ?src)] None"
  have deps: "resolve_dependencies ?f = [''a''] @ ''b'' # [''c'']"
    by (simp add: resolve_dependencies_def or_empty_def def_annotations_def Depends_def)
  have src: "?src = dict_get (f_locals ?fr) DEP_VAR []"
    by (simp add: dict_get_def)
  have pre: "\<forall>d \<in> set [''a'']. dict_contains d ?src"
    by (simp add: dict_contains_def)
  have miss: "\<not> dict_contains ''b'' ?src"
    by (simp add: dict_contains_def)
  show ?thesis
    using deps src pre miss
      with_context_missing_dependency [OF deps src pre miss,
        of "\<lambda>fr args kwargs s. ((Inr (length kwargs) :: unit py_exception + nat), Suc s)"
          "[]" "[]" "0::nat"]
    by (simp add: dict_keys_def)
qed

lemma inject_some_missing:
  assumes "dep \<in> set deps" and "\<not> dict_contains dep source"
  shows "\<exists>d. d \<in> set deps \<and> \<not> dict_contains d source \<and>
           inject func source deps kwargs =
             Inl (DependencyNotFoundError_init d func (dict_keys source))"
  using assms
proof (induction deps arbitrary: kwargs)
  case Nil
  then show ?case by simp
next
  case (Cons d deps)
  show ?case
  proof (cases "map_of source d")
    case None
    then show ?thesis by (auto simp: dict_contains_def)
  next
    case (Some v)
    with Cons.prems have "dep \<in> set deps"
      by (auto simp: dict_contains_def)
    from Cons.IH [OF this Cons.prems(2)] Some show ?thesis
      by auto
  qed
qed

lemma inject_binds_from_source:
  assumes "\<forall>d \<in> set deps. dict_contains d source"
  shows "\<exists>kwargs'. (inject func source deps kwargs :: 'x py_exception + 'v dict) = Inr kwargs' \<and>
           (\<forall>k. map_of kwargs' k =
              (if k \<in> set deps then map_of source k else map_of kwargs k))"
  using assms
proof (induction deps arbitrary: kwargs)
  case Nil
  then show ?case by simp
next
  case (Cons d deps)
  then obtain v where v: "map_of source d = Some v"
    by (auto simp: dict_contains_def)
  from Cons.prems have "\<forall>d \<in> set deps. dict_contains d source" by simp
  from Cons.IH [OF this, of "AList.update d v kwargs"]
  obtain kw where
    kw: "(inject func source deps (AList.update d v kwargs) :: 'x py_exception + 'v dict) = Inr kw"
    and look: "\<And>k. map_of kw k =
        (if k \<in> set deps then map_of source k else map_of (AList.update d v kwargs) k)"
    by blast
  have "(inject func source (d # deps) kwargs :: 'x py_exception + 'v dict) = Inr kw"
    using v kw by simp
  moreover have "\<forall>k. map_of kw k =
      (if k \<in> set (d # deps) then map_of source k else map_of kwargs k)"
    using look v by (simp add: update_conv')
  ultimately show ?case by blast
qed

text \<open>
  C8. When a dependency-marked name is both in the effective context and among the
  keyword arguments the caller passed, the target receives the value of the context:
  \<open>kwargs[dep] = source[dep]\<close> overwrites the caller's value without looking at it.
\<close>

theorem with_context_overwrites_explicit_kwarg:
  fixes call :: "'v frame \<Rightarrow> 'v list \<Rightarrow> 'v dict \<Rightarrow> 's \<Rightarrow> ('x py_exception + 'r) \<times> 's"
  assumes "source = dict_get (f_locals frame) DEP_VAR []"
    and "\<forall>d \<in> set (resolve_dependencies func). dict_contains d source"
    and "dep \<in> set (resolve_dependencies func)"
    and "map_of source dep = Some v"
    and "map_of kwargs dep = Some u"
  shows "\<exists>kwargs'.
           (inject func source (resolve_dependencies func) kwargs :: 'x py_exception + 'v dict)
             = Inr kwargs'
           \<and> with_context func call frame args kwargs s
               = call (wrapper_frame frame source kwargs') args kwargs' s
           \<and> map_of kwargs' dep = Some v"
proof -
  from inject_binds_from_source [OF assms(2), of func kwargs]
  obtain kw where
    kw: "(inject func source (resolve_dependencies func) kwargs :: 'x py_exception + 'v dict)
           = Inr kw"
    and look: "\<And>k. map_of kw k =
        (if k \<in> set (resolve_dependencies func) then map_of source k else map_of kwargs k)"
    by blast
  have "with_context func call frame args kwargs s
           = call (wrapper_frame frame source kw) args kw s"
    unfolding with_context_def Let_def assms(1) [symmetric]
    by (simp add: kw)
  moreover have "map_of kw dep = Some v"
    using look [of dep] assms(3,4) by simp
  ultimately show ?thesis
    using kw by blast
qed

theorem with_context_overwrites_explicit_kwarg_witness:
  "[(''logger'', ''print'')]
     = dict_get (f_locals (Frame [(DEP_VAR, [(''logger'', ''print'')])] None)) DEP_VAR []
   \<and> resolve_dependencies say_hello = [''logger'']
   \<and> dict_contains ''logger'' [(''logger'', ''print'')]
   \<and> ''logger'' \<in> set (resolve_dependencies say_hello)
   \<and> map_of [(''logger'', ''print'')] ''logger'' = Some ''print''
   \<and> map_of [(''logger'', ''mine'')] ''logger'' = Some ''mine''
   \<and> with_context say_hello (\<lambda>fr args kwargs s. ((Inr kwargs :: unit py_exception + string dict), s))
        (Frame [(DEP_VAR, [(''logger'', ''print'')])] None)
        [''Kotlin''] [(''logger'', ''mine'')] ()
      = (Inr [(''logger'', ''print'')], ())"
proof -
  let ?src = "[(''logger'', ''print'')]"
  let ?fr = "Frame [(DEP_VAR, ?src)] None"
  have deps: "resolve_dependencies say_hello = [''logger'']"
    by (simp add: resolve_dependencies_def or_empty_def def_annotations_def say_hello_def
        Depends_def str_anno_def None_anno_def)
  have h1: "?src = dict_get (f_locals ?fr) DEP_VAR []"
    by (simp add: dict_get_def)
  have h2: "\<forall>d \<in> set (resolve_dependencies say_hello). dict_contains d ?src"
    by (simp add: deps dict_contains_def)
  have h3: "''logger'' \<in> set (resolve_dependencies say_hello)"
    by (simp add: deps)
  have h4: "map_of ?src ''logger'' = Some ''print''"
    by simp
  have h5: "map_of [(''logger'', ''mine'')] ''logger'' = Some ''mine''"
    by simp
  show ?thesis
    using h1 h2 h3 h4 h5
      with_context_overwrites_explicit_kwarg [OF h1 h2 h3 h4 h5,
        of "\<lambda>fr args kwargs s. ((Inr kwargs :: unit py_exception + string dict), s)"
          "[''Kotlin'']" "()"]
    by (auto simp: deps)
qed

lemma resolve_dependencies_selects:
  assumes "dunder_annotations func = Some annos"
  shows "resolve_dependencies func =
           map fst (filter (\<lambda>(n, a). dunder_name a = Some ''Depends'') annos)"
  using assms by (simp add: resolve_dependencies_def or_empty_def)

lemma return_in_def_annotations:
  "(''return'', ret) \<in> set (def_annotations params (Some ret))"
  by (simp add: def_annotations_def)

text \<open>
  C10. Dependency extraction takes every entry of \<open>__annotations__\<close> whose annotation has
  \<open>__name__\<close> equal to \<open>Depends\<close>, the entry \<open>return\<close> of the return annotation included.
  For a function declared with return type \<open>Depends\<close>, the name \<open>return\<close> is a required
  dependency: a call made where the effective context has no \<open>return\<close> raises
  \<open>DependencyNotFoundError\<close> and the target is not called.
\<close>

theorem return_annotation_is_a_dependency:
  fixes call :: "'v frame \<Rightarrow> 'v list \<Rightarrow> 'v dict \<Rightarrow> 's \<Rightarrow> ('x py_exception + 'r) \<times> 's"
  assumes "dunder_annotations func = Some (def_annotations params (Some ret))"
    and "dunder_name ret = Some ''Depends''"
    and "source = dict_get (f_locals frame) DEP_VAR []"
    and "\<not> dict_contains ''return'' source"
  shows "set (resolve_dependencies func) =
           {n. \<exists>a. (n, a) \<in> set (def_annotations params (Some ret))
                 \<and> dunder_name a = Some ''Depends''}
         \<and> ''return'' \<in> set (resolve_dependencies func)
         \<and> (\<exists>d. d \<in> set (resolve_dependencies func) \<and> \<not> dict_contains d source \<and>
               with_context func call frame args kwargs s =
                 (Inl (DependencyNotFoundError_inst [d] d func (dict_keys source)), s))"
proof -
  let ?annos = "def_annotations params (Some ret)"
  have sel: "resolve_dependencies func =
      map fst (filter (\<lambda>(n, a). dunder_name a = Some ''Depends'') ?annos)"
    using assms(1) by (rule resolve_dependencies_selects)
  have all: "set (resolve_dependencies func) =
      {n. \<exists>a. (n, a) \<in> set ?annos \<and> dunder_name a = Some ''Depends''}"
    unfolding sel by force
  have ret: "''return'' \<in> set (resolve_dependencies func)"
    unfolding all using return_in_def_annotations [of ret params] assms(2) by blast
  from inject_some_missing [OF ret assms(4), of func kwargs]
  obtain d where d: "d \<in> set (resolve_dependencies func)" "\<not> dict_contains d source"
    and inj: "(inject func source (resolve_dependencies func) kwargs
                :: 'x py_exception + 'v dict)
              = Inl (DependencyNotFoundError_init d func (dict_keys source))"
    by blast
  have "with_context func call frame args kwargs s =
      (Inl (DependencyNotFoundError_inst [d] d func (dict_keys source)), s)"
    unfolding with_context_def Let_def assms(3) [symmetric]
    by (simp add: inj DependencyNotFoundError_init_def)
  with all ret d show ?thesis by blast
qed

theorem return_annotation_is_a_dependency_witness:
  "dunder_annotations \<lparr> func_name = ''make'', dunder_annotations =
       Some (def_annotations [(''x'', Some str_anno)] (Some Depends)) \<rparr>
     = Some (def_annotations [(''x'', Some str_anno)] (Some Depends))
   \<and> dunder_name Depends = Some ''Depends''
   \<and> ([] :: string dict) = dict_get (f_locals (Frame [] None)) DEP_VAR []
   \<and> \<not> dict_contains ''return'' ([] :: string dict)
   \<and> resolve_dependencies \<lparr> func_name = ''make'', dunder_annotations =
       Some (def_annotations [(''x'', Some str_anno)] (Some Depends)) \<rparr> = [''return'']
   \<and> with_context \<lparr> func_name = ''make'', dunder_annotations =
         Some (def_annotations [(''x'', Some str_anno)] (Some Depends)) \<rparr>
       (\<lambda>fr args kwargs s. ((Inr kwargs :: unit py_exception + string dict), Suc s))
       (Frame [] None) [''a''] [] (0::nat)
     = (Inl (DependencyNotFoundError_inst [''return''] ''return''
          \<lparr> func_name = ''make'', dunder_annotations =
            Some (def_annotations [(''x'', Some str_anno)] (Some Depends)) \<rparr> []), 0)"
proof -
  let ?f = "\<lparr> func_name = ''make'', dunder_annotations =
       Some (def_annotations [(''x'', Some str_anno)] (Some Depends)) \<rparr>"
  have h1: "dunder_annotations ?f = Some (def_annotations [(''x'', Some str_anno)] (Some Depends))"
    by simp
  have h2: "dunder_name Depends = Some ''Depends''"
    by (simp add: Depends_def)
  have h3: "([] :: string dict) = dict_get (f_locals (Frame [] None)) DEP_VAR []"
    by (simp add: dict_get_def)
  have h4: "\<not> dict_contains ''return'' ([] :: string dict)"
    by (simp add: dict_contains_def)
  have deps: "resolve_dependencies ?f = [''return'']"
    by (simp add: resolve_dependencies_def or_empty_def def_annotations_def
        Depends_def str_anno_def)
  show ?thesis
    using h1 h2 h3 h4 deps
      return_annotation_is_a_dependency [OF h1 h2 h3 h4,
        of "\<lambda>fr args kwargs s. ((Inr kwargs :: unit py_exception + string dict), Suc s)"
          "[''a'']" "[]" "0::nat"]
    by (auto simp: dict_keys_def)
qed

lemma inject_outcome:
  "(\<exists>kwargs'.
      (\<forall>func. (inject func source deps kwargs :: 'x py_exception + 'v dict) = Inr kwargs')
      \<and> (\<forall>k. map_of kwargs' k = (if k \<in> set deps then map_of source k else map_of kwargs k)))
   \<or> (\<exists>d. d \<in> set deps \<and> \<not> dict_contains d source
      \<and> (\<forall>func. (inject func source deps kwargs :: 'x py_exception + 'v dict)
            = Inl (DependencyNotFoundError_init d func (dict_keys source))))"
proof (induction deps arbitrary: kwargs)
  case Nil
  show ?case by simp
next
  case (Cons d deps)
  show ?case
  proof (cases "map_of source d")
    case None
    then have "\<forall>func. (inject func source (d # deps) kwargs :: 'x py_exception + 'v dict)
        = Inl (DependencyNotFoundError_init d func (dict_keys source))"
      by simp
    moreover have "\<not> dict_contains d source"
      using None by (simp add: dict_contains_def)
    moreover have "d \<in> set (d # deps)"
      by simp
    ultimately show ?thesis by blast
  next
    case (Some v)
    have step: "\<And>func. (inject func source (d # deps) kwargs :: 'x py_exception + 'v dict)
        = inject func source deps (AList.update d v kwargs)"
      using Some by simp
    from Cons.IH [of "AList.update d v kwargs"] show ?thesis
    proof
      assume "\<exists>kwargs'.
        (\<forall>func. (inject func source deps (AList.update d v kwargs)
            :: 'x py_exception + 'v dict) = Inr kwargs')
        \<and> (\<forall>k. map_of kwargs' k =
              (if k \<in> set deps then map_of source k else map_of (AList.update d v kwargs) k))"
      then obtain kw where
        kw: "\<And>func. (inject func source deps (AList.update d v kwargs)
            :: 'x py_exception + 'v dict) = Inr kw"
        and look: "\<And>k. map_of kw k =
              (if k \<in> set deps then map_of source k else map_of (AList.update d v kwargs) k)"
        by blast
      have "\<forall>func. (inject func source (d # deps) kwargs :: 'x py_exception + 'v dict) = Inr kw"
        using step kw by simp
      moreover have "\<forall>k. map_of kw k =
          (if k \<in> set (d # deps) then map_of source k else map_of kwargs k)"
        using look Some by (simp add: update_conv')
      ultimately show ?thesis by blast
    next
      assume "\<exists>m. m \<in> set deps \<and> \<not> dict_contains m source
        \<and> (\<forall>func. (inject func source deps (AList.update d v kwargs)
              :: 'x py_exception + 'v dict)
            = Inl (DependencyNotFoundError_init m func (dict_keys source)))"
      then obtain m where m: "m \<in> set deps" "\<not> dict_contains m source"
        and fails: "\<And>func. (inject func source deps (AList.update d v kwargs)
              :: 'x py_exception + 'v dict)
            = Inl (DependencyNotFoundError_init m func (dict_keys source))"
        by blast
      have "\<forall>func. (inject func source (d # deps) kwargs :: 'x py_exception + 'v dict)
            = Inl (DependencyNotFoundError_init m func (dict_keys source))"
        using step fails by simp
      moreover have "m \<in> set (d # deps)"
        using m(1) by simp
      ultimately show ?thesis
        using m(2) by blast
    qed
  qed
qed

text \<open>
  C7. Two invocations of a wrapped function made with the same active scope and the
  same arguments resolve to the same bindings. With the scope as the spec has it, the
  one open on the call path, the code does not: \<open>_wrapper\<close> resolves against the local
  variables of the frame that calls it. Here \<open>with context(n=1)\<close> is open in the outermost
  frame and \<open>f()\<close>, with \<open>def f(n: Depends)\<close>, is invoked twice with the same arguments
  while it is open: from the body, it is called with \<open>n = 1\<close>; from a function called in
  the body, it raises \<open>DependencyNotFoundError\<close>.
\<close>

theorem invocations_under_one_scope_resolve_differently:
  "context_enter [(''n'', 1::int)] (Frame [] None)
     = Some (Frame [(DEP_VAR, [(''n'', 1::int)])] None)
   \<and> with_context \<lparr> func_name = ''f'', dunder_annotations =
          Some (def_annotations [(''n'', Some Depends)] None) \<rparr>
        (\<lambda>fr args kwargs s. ((Inr kwargs :: unit py_exception + int dict), s))
        (Frame [(DEP_VAR, [(''n'', 1::int)])] None) [] [] ()
     = (Inr [(''n'', 1::int)], ())
   \<and> with_context \<lparr> func_name = ''f'', dunder_annotations =
          Some (def_annotations [(''n'', Some Depends)] None) \<rparr>
        (\<lambda>fr args kwargs s. ((Inr kwargs :: unit py_exception + int dict), s))
        (Frame [] (Some (Frame [(DEP_VAR, [(''n'', 1::int)])] None))) [] [] ()
     = (Inl (DependencyNotFoundError_inst [''n''] ''n''
          \<lparr> func_name = ''f'', dunder_annotations =
            Some (def_annotations [(''n'', Some Depends)] None) \<rparr> []), ())
   \<and> with_context \<lparr> func_name = ''f'', dunder_annotations =
          Some (def_annotations [(''n'', Some Depends)] None) \<rparr>
        (\<lambda>fr args kwargs s. ((Inr kwargs :: unit py_exception + int dict), s))
        (Frame [(DEP_VAR, [(''n'', 1::int)])] None) [] [] ()
     \<noteq> with_context \<lparr> func_name = ''f'', dunder_annotations =
          Some (def_annotations [(''n'', Some Depends)] None) \<rparr>
        (\<lambda>fr args kwargs s. ((Inr kwargs :: unit py_exception + int dict), s))
        (Frame [] (Some (Frame [(DEP_VAR, [(''n'', 1::int)])] None))) [] [] ()"
proof -
  let ?f = "\<lparr> func_name = ''f'', dunder_annotations =
          Some (def_annotations [(''n'', Some Depends)] None) \<rparr>"
  let ?call = "\<lambda>(fr :: int frame) (args :: int list) (kwargs :: int dict) (s :: unit).
          ((Inr kwargs :: unit py_exception + int dict), s)"
  let ?body = "Frame [(DEP_VAR, [(''n'', 1::int)])] None"
  have deps: "resolve_dependencies ?f = [''n'']"
    by (simp add: resolve_dependencies_def or_empty_def def_annotations_def Depends_def)
  have enter: "context_enter [(''n'', 1::int)] (Frame [] None) = Some ?body"
    by (simp add: context_enter_outermost dict_or_def)
  have direct: "with_context ?f ?call ?body [] [] () = (Inr [(''n'', 1::int)], ())"
    by (simp add: with_context_def deps dict_get_def)
  have through: "with_context ?f ?call (Frame [] (Some ?body)) [] [] ()
     = (Inl (DependencyNotFoundError_inst [''n''] ''n'' ?f []), ())"
    by (simp add: with_context_def deps dict_get_def dict_keys_def
        DependencyNotFoundError_init_def)
  show ?thesis
    unfolding enter direct through by simp
qed

text \<open>
  C7 as the code has it. Resolution is a function of the bindings that the calling frame
  holds in \<open>DEP_VAR\<close> (none is the empty context), of the list of dependency names and of
  the keyword arguments, and of nothing else. Take two invocations, of one wrapped
  function or of two with the same dependency names, from frames that hold the same
  bindings, with the same arguments, in any two states of the world (so also the second
  in the state that the first has left) and whatever else the frames hold or are called
  from. Either both call their target with the same arguments and the same keyword
  arguments, which bind every dependency name to its value in the bindings and leave the
  other keyword arguments as passed; or both raise \<open>DependencyNotFoundError\<close> with the
  same missing name and the same available keys, and call nothing.
\<close>

theorem resolution_is_function_of_calling_frame_bindings:
  fixes call1 call2 :: "'v frame \<Rightarrow> 'v list \<Rightarrow> 'v dict \<Rightarrow> 's \<Rightarrow> ('x py_exception + 'r) \<times> 's"
  assumes "dict_get (f_locals frame1) DEP_VAR [] = source"
    and "dict_get (f_locals frame2) DEP_VAR [] = source"
    and "resolve_dependencies func1 = deps"
    and "resolve_dependencies func2 = deps"
  shows "(\<exists>kwargs'.
            (\<forall>k. map_of kwargs' k =
               (if k \<in> set deps then map_of source k else map_of kwargs k))
            \<and> with_context func1 call1 frame1 args kwargs s1
                = call1 (wrapper_frame frame1 source kwargs') args kwargs' s1
            \<and> with_context func2 call2 frame2 args kwargs s2
                = call2 (wrapper_frame frame2 source kwargs') args kwargs' s2)
         \<or> (\<exists>d. d \<in> set deps \<and> \<not> dict_contains d source
            \<and> with_context func1 call1 frame1 args kwargs s1
                = (Inl (DependencyNotFoundError_inst [d] d func1 (dict_keys source)), s1)
            \<and> with_context func2 call2 frame2 args kwargs s2
                = (Inl (DependencyNotFoundError_inst [d] d func2 (dict_keys source)), s2))"
proof -
  have "(\<exists>kwargs'.
      (\<forall>func. (inject func source deps kwargs :: 'x py_exception + 'v dict) = Inr kwargs')
      \<and> (\<forall>k. map_of kwargs' k = (if k \<in> set deps then map_of source k else map_of kwargs k)))
   \<or> (\<exists>d. d \<in> set deps \<and> \<not> dict_contains d source
      \<and> (\<forall>func. (inject func source deps kwargs :: 'x py_exception + 'v dict)
            = Inl (DependencyNotFoundError_init d func (dict_keys source))))"
    by (rule inject_outcome)
  then show ?thesis
  proof
    assume "\<exists>kwargs'.
      (\<forall>func. (inject func source deps kwargs :: 'x py_exception + 'v dict) = Inr kwargs')
      \<and> (\<forall>k. map_of kwargs' k = (if k \<in> set deps then map_of source k else map_of kwargs k))"
    then obtain kw where
      kw: "\<And>func. (inject func source deps kwargs :: 'x py_exception + 'v dict) = Inr kw"
      and look: "\<forall>k. map_of kw k = (if k \<in> set deps then map_of source k else map_of kwargs k)"
      by blast
    have "with_context func1 call1 frame1 args kwargs s1
            = call1 (wrapper_frame frame1 source kw) args kw s1"
      by (simp add: with_context_def assms(1,3) kw)
    moreover have "with_context func2 call2 frame2 args kwargs s2
            = call2 (wrapper_frame frame2 source kw) args kw s2"
      by (simp add: with_context_def assms(2,4) kw)
    ultimately show ?thesis
      using look by blast
  next
    assume "\<exists>d. d \<in> set deps \<and> \<not> dict_contains d source
      \<and> (\<forall>func. (inject func source deps kwargs :: 'x py_exception + 'v dict)
            = Inl (DependencyNotFoundError_init d func (dict_keys source)))"
    then obtain d where d: "d \<in> set deps" "\<not> dict_contains d source"
      and fails: "\<And>func. (inject func source deps kwargs :: 'x py_exception + 'v dict)
            = Inl (DependencyNotFoundError_init d func (dict_keys source))"
      by blast
    have "with_context func1 call1 frame1 args kwargs s1
            = (Inl (DependencyNotFoundError_inst [d] d func1 (dict_keys source)), s1)"
      by (simp add: with_context_def assms(1,3) fails DependencyNotFoundError_init_def)
    moreover have "with_context func2 call2 frame2 args kwargs s2
            = (Inl (DependencyNotFoundError_inst [d] d func2 (dict_keys source)), s2)"
      by (simp add: with_context_def assms(2,4) fails DependencyNotFoundError_init_def)
    ultimately show ?thesis
      using d by blast
  qed
qed

theorem resolution_is_function_of_calling_frame_bindings_witness:
  "dict_get (f_locals (Frame [(''x'', []), (DEP_VAR, [(''logger'', ''print'')])] None)) DEP_VAR []
     = [(''logger'', ''print'')]
   \<and> dict_get (f_locals (Frame [(DEP_VAR, [(''logger'', ''print'')])] (Some (Frame [] None))))
       DEP_VAR []
     = [(''logger'', ''print'')]
   \<and> resolve_dependencies say_hello = [''logger'']
   \<and> resolve_dependencies \<lparr> func_name = ''other'', dunder_annotations =
         Some (def_annotations [(''logger'', Some Depends)] None) \<rparr> = [''logger'']
   \<and> with_context say_hello
        (\<lambda>fr args kwargs s. ((Inr (map_of kwargs ''logger'') :: unit py_exception + string option),
           Suc s))
        (Frame [(''x'', []), (DEP_VAR, [(''logger'', ''print'')])] None)
        [''Kotlin''] [(''logger'', ''mine'')] (0::nat)
     = (Inr (Some ''print''), Suc (0::nat))
   \<and> with_context \<lparr> func_name = ''other'', dunder_annotations =
          Some (def_annotations [(''logger'', Some Depends)] None) \<rparr>
        (\<lambda>fr args kwargs s. ((Inr (map_of kwargs ''logger'') :: unit py_exception + string option),
           Suc s))
        (Frame [(DEP_VAR, [(''logger'', ''print'')])] (Some (Frame [] None)))
        [''Kotlin''] [(''logger'', ''mine'')] (Suc (0::nat))
     = (Inr (Some ''print''), Suc (Suc (0::nat)))"
proof -
  let ?f1 = "Frame [(''x'', []), (DEP_VAR, [(''logger'', ''print'')])] None"
  let ?f2 = "Frame [(DEP_VAR, [(''logger'', ''print'')])] (Some (Frame [] None))"
  let ?g = "\<lparr> func_name = ''other'', dunder_annotations =
         Some (def_annotations [(''logger'', Some Depends)] None) \<rparr>"
  let ?call = "\<lambda>(fr :: string frame) (args :: string list) (kwargs :: string dict) (s :: nat).
        ((Inr (map_of kwargs ''logger'') :: unit py_exception + string option), Suc s)"
  have h1: "dict_get (f_locals ?f1) DEP_VAR [] = [(''logger'', ''print'')]"
    by (simp add: dict_get_def DEP_VAR_def)
  have h2: "dict_get (f_locals ?f2) DEP_VAR [] = [(''logger'', ''print'')]"
    by (simp add: dict_get_def)
  have h3: "resolve_dependencies say_hello = [''logger'']"
    by (simp add: resolve_dependencies_def or_empty_def def_annotations_def say_hello_def
        Depends_def str_anno_def None_anno_def)
  have h4: "resolve_dependencies ?g = [''logger'']"
    by (simp add: resolve_dependencies_def or_empty_def def_annotations_def Depends_def)
  have here: "dict_contains ''logger'' [(''logger'', ''print'')]"
    by (simp add: dict_contains_def)
  show ?thesis
    using h1 h2 h3 h4 here
      resolution_is_function_of_calling_frame_bindings [OF h1 h2 h3 h4,
        where kwargs = "[(''logger'', ''mine'')]" and args = "[''Kotlin'']"
        and ?call1.0 = ?call and ?s1.0 = "0::nat" and ?call2.0 = ?call and ?s2.0 = "Suc (0::nat)"]
    by auto
qed

text \<open>
  C2. A wrapped function called while a scope is open somewhere on the call path resolves
  against the nearest enclosing scope, also through intermediate calls. The code does
  not: \<open>_wrapper\<close> reads \<open>inspect.currentframe().f_back.f_locals\<close>, the locals of the frame
  that calls it, and nothing else. Here \<open>with context(logger=print)\<close> is entered in the
  outermost frame and \<open>say_hello("Kotlin")\<close> is called from a function called in the
  body: the call raises \<open>DependencyNotFoundError\<close> with nothing available, where a direct
  call from the body is given \<open>logger\<close>.
\<close>

theorem intermediate_call_finds_no_scope:
  "context_enter [(''logger'', ''print'')] (Frame [] None)
     = Some (Frame [(DEP_VAR, [(''logger'', ''print'')])] None)
   \<and> with_context say_hello
        (\<lambda>fr args kwargs s. ((Inr kwargs :: unit py_exception + string dict), s))
        (Frame [(DEP_VAR, [(''logger'', ''print'')])] None) [''Kotlin''] [] ()
     = (Inr [(''logger'', ''print'')], ())
   \<and> with_context say_hello
        (\<lambda>fr args kwargs s. ((Inr kwargs :: unit py_exception + string dict), s))
        (Frame [] (Some (Frame [(DEP_VAR, [(''logger'', ''print'')])] None))) [''Kotlin''] [] ()
     = (Inl (DependencyNotFoundError_inst [''logger''] ''logger'' say_hello []), ())
   \<and> with_context say_hello
        (\<lambda>fr args kwargs s. ((Inr kwargs :: unit py_exception + string dict), s))
        (Frame [] (Some (Frame [(DEP_VAR, [(''logger'', ''print'')])] None))) [''Kotlin''] [] ()
     \<noteq> (Inr [(''logger'', ''print'')], ())"
proof -
  have deps: "resolve_dependencies say_hello = [''logger'']"
    by (simp add: resolve_dependencies_def or_empty_def def_annotations_def say_hello_def
        Depends_def str_anno_def None_anno_def)
  have enter: "context_enter [(''logger'', ''print'')] (Frame [] None)
     = Some (Frame [(DEP_VAR, [(''logger'', ''print'')])] None)"
    by (simp add: context_enter_outermost dict_or_def)
  have direct: "with_context say_hello
        (\<lambda>fr args kwargs s. ((Inr kwargs :: unit py_exception + string dict), s))
        (Frame [(DEP_VAR, [(''logger'', ''print'')])] None) [''Kotlin''] [] ()
     = (Inr [(''logger'', ''print'')], ())"
    by (simp add: with_context_def deps dict_get_def)
  have through: "with_context say_hello
        (\<lambda>fr args kwargs s. ((Inr kwargs :: unit py_exception + string dict), s))
        (Frame [] (Some (Frame [(DEP_VAR, [(''logger'', ''print'')])] None))) [''Kotlin''] [] ()
     = (Inl (DependencyNotFoundError_inst [''logger''] ''logger'' say_hello []), ())"
    by (simp add: with_context_def deps dict_get_def dict_keys_def
        DependencyNotFoundError_init_def)
  show ?thesis
    using enter direct through by simp
qed

lemma update_fresh_key:
  "k \<notin> fst ` set al \<Longrightarrow> AList.update k v al = al @ [(k, v)]"
  by (induction al) auto

lemma dict_or_distinct_keys:
  "distinct (map fst (a @ b)) \<Longrightarrow> dict_or a b = a @ b"
proof (induction b arbitrary: a)
  case Nil
  show ?case by (simp add: dict_or_def)
next
  case (Cons kv b)
  obtain k v where kv: "kv = (k, v)"
    by (cases kv)
  from Cons.prems have fresh: "k \<notin> fst ` set a"
    by (auto simp: kv)
  from Cons.prems have "distinct (map fst ((a @ [(k, v)]) @ b))"
    by (simp add: kv)
  then have "dict_or (a @ [(k, v)]) b = (a @ [(k, v)]) @ b"
    by (rule Cons.IH)
  moreover have "dict_or a (kv # b) = dict_or (AList.update k v a) b"
    by (simp add: dict_or_def kv)
  ultimately show ?case
    by (simp add: update_fresh_key [OF fresh] kv)
qed

lemma with_context_resolved:
  fixes call :: "'v frame \<Rightarrow> 'v list \<Rightarrow> 'v dict \<Rightarrow> 's \<Rightarrow> ('x py_exception + 'r) \<times> 's"
  assumes "dict_get (f_locals frame) DEP_VAR [] = source"
    and "\<forall>d \<in> set (resolve_dependencies func). dict_contains d source"
  shows "\<exists>kwargs'.
           (\<forall>k. map_of kwargs' k =
              (if k \<in> set (resolve_dependencies func) then map_of source k else map_of kwargs k))
           \<and> with_context func call frame args kwargs s
               = call (wrapper_frame frame source kwargs') args kwargs' s"
proof -
  from inject_binds_from_source [OF assms(2), of func kwargs]
  obtain kw where
    kw: "(inject func source (resolve_dependencies func) kwargs :: 'x py_exception + 'v dict)
           = Inr kw"
    and look: "\<forall>k. map_of kw k =
        (if k \<in> set (resolve_dependencies func) then map_of source k else map_of kwargs k)"
    by blast
  have "with_context func call frame args kwargs s
          = call (wrapper_frame frame source kw) args kw s"
    by (simp add: with_context_def assms(1) kw)
  then show ?thesis
    using look by blast
qed

text \<open>
  C2 as the code has it. A wrapped function resolves against the bindings that the frame
  that calls it holds in its local variable \<open>DEP_VAR\<close>, whatever frames lie behind that
  frame. When the calling frame holds bindings for every dependency name, the target is
  called with each dependency name bound to the value the frame holds for it, and the
  other keyword arguments as passed. When the calling frame holds no bindings, the call
  raises \<open>DependencyNotFoundError\<close> for the first dependency name with nothing available,
  whatever scope is open further up the call path. Entering a scope in the outermost
  frame stores its bindings (the keyword arguments of \<open>context\<close>, with distinct names) in
  that frame, so a call made from that frame while it holds them resolves against them.
\<close>

theorem with_context_resolves_against_calling_frame:
  fixes call :: "'v frame \<Rightarrow> 'v list \<Rightarrow> 'v dict \<Rightarrow> 's \<Rightarrow> ('x py_exception + 'r) \<times> 's"
  shows "(map_of locals DEP_VAR = Some source
            \<and> (\<forall>d \<in> set (resolve_dependencies func). dict_contains d source) \<longrightarrow>
          (\<exists>kwargs'.
             (\<forall>k. map_of kwargs' k =
                (if k \<in> set (resolve_dependencies func) then map_of source k
                 else map_of kwargs k))
             \<and> with_context func call (Frame locals caller) args kwargs s
                 = call (wrapper_frame (Frame locals caller) source kwargs') args kwargs' s))
         \<and> (map_of locals' DEP_VAR = None \<and> resolve_dependencies func = d # ds \<longrightarrow>
            with_context func call (Frame locals' caller') args kwargs s
              = (Inl (DependencyNotFoundError_inst [d] d func []), s))
         \<and> (f_back frame = None \<and> distinct (map fst deps)
              \<and> (\<forall>d \<in> set (resolve_dependencies func). dict_contains d deps) \<longrightarrow>
            (\<exists>entered kwargs'.
               context_enter deps frame = Some entered
               \<and> (\<forall>k. map_of kwargs' k =
                    (if k \<in> set (resolve_dependencies func) then map_of deps k
                     else map_of kwargs k))
               \<and> with_context func call entered args kwargs s
                   = call (wrapper_frame entered deps kwargs') args kwargs' s))"
proof -
  have holds: "\<exists>kwargs'.
             (\<forall>k. map_of kwargs' k =
                (if k \<in> set (resolve_dependencies func) then map_of source k
                 else map_of kwargs k))
             \<and> with_context func call (Frame locals caller) args kwargs s
                 = call (wrapper_frame (Frame locals caller) source kwargs') args kwargs' s"
    if "map_of locals DEP_VAR = Some source"
      and "\<forall>d \<in> set (resolve_dependencies func). dict_contains d source"
  proof -
    have "dict_get (f_locals (Frame locals caller)) DEP_VAR [] = source"
      using that(1) by (simp add: dict_get_def)
    then show ?thesis
      using that(2) by (rule with_context_resolved)
  qed
  have empty: "with_context func call (Frame locals' caller') args kwargs s
              = (Inl (DependencyNotFoundError_inst [d] d func []), s)"
    if "map_of locals' DEP_VAR = None" and "resolve_dependencies func = d # ds"
    using that
    by (simp add: with_context_def dict_get_def dict_keys_def DependencyNotFoundError_init_def)
  have entered: "\<exists>entered kwargs'.
               context_enter deps frame = Some entered
               \<and> (\<forall>k. map_of kwargs' k =
                    (if k \<in> set (resolve_dependencies func) then map_of deps k
                     else map_of kwargs k))
               \<and> with_context func call entered args kwargs s
                   = call (wrapper_frame entered deps kwargs') args kwargs' s"
    if outermost: "f_back frame = None" and names: "distinct (map fst deps)"
      and bound: "\<forall>d \<in> set (resolve_dependencies func). dict_contains d deps"
  proof -
    obtain locals0 where fr: "frame = Frame locals0 None"
      using outermost by (cases frame) simp
    have merged: "dict_or [] deps = deps"
      using dict_or_distinct_keys [of "[]" deps] names by simp
    let ?entered = "Frame (AList.update DEP_VAR deps locals0) None"
    have enter: "context_enter deps frame = Some ?entered"
      by (simp add: fr context_enter_outermost merged)
    have "dict_get (f_locals ?entered) DEP_VAR [] = deps"
      by (simp add: dict_get_def update_conv')
    from with_context_resolved [OF this bound,
        where call = call and args = args and kwargs = kwargs and s = s] enter
    show ?thesis by blast
  qed
  show ?thesis
    using holds empty entered by blast
qed

theorem with_context_resolves_against_calling_frame_witness:
  "map_of [(DEP_VAR, [(''logger'', ''print'')])] DEP_VAR = Some [(''logger'', ''print'')]
   \<and> resolve_dependencies say_hello = ''logger'' # []
   \<and> dict_contains ''logger'' [(''logger'', ''print'')]
   \<and> map_of ([] :: string dict dict) DEP_VAR = None
   \<and> f_back (Frame [] None :: string frame) = None
   \<and> distinct (map fst [(''logger'', ''print'')])
   \<and> with_context say_hello
        (\<lambda>fr args kwargs s. ((Inr (map_of kwargs ''logger'') :: unit py_exception + string option),
           s))
        (Frame [(DEP_VAR, [(''logger'', ''print'')])]
           (Some (Frame [(DEP_VAR, [(''logger'', ''other'')])] None)))
        [''Kotlin''] [] ()
     = (Inr (Some ''print''), ())
   \<and> with_context say_hello
        (\<lambda>fr args kwargs s. ((Inr (map_of kwargs ''logger'') :: unit py_exception + string option),
           s))
        (Frame [] (Some (Frame [(DEP_VAR, [(''logger'', ''print'')])] None)))
        [''Kotlin''] [] ()
     = (Inl (DependencyNotFoundError_inst [''logger''] ''logger'' say_hello []), ())
   \<and> context_enter [(''logger'', ''print'')] (Frame [] None)
     = Some (Frame [(DEP_VAR, [(''logger'', ''print'')])] None)
   \<and> with_context say_hello
        (\<lambda>fr args kwargs s. ((Inr (map_of kwargs ''logger'') :: unit py_exception + string option),
           s))
        (Frame [(DEP_VAR, [(''logger'', ''print'')])] None)
        [''Kotlin''] [] ()
     = (Inr (Some ''print''), ())"
proof -
  let ?src = "[(''logger'', ''print'')]"
  let ?call = "\<lambda>(fr :: string frame) (args :: string list) (kwargs :: string dict) (s :: unit).
        ((Inr (map_of kwargs ''logger'') :: unit py_exception + string option), s)"
  have h1: "map_of [(DEP_VAR, ?src)] DEP_VAR = Some ?src"
    by simp
  have deps: "resolve_dependencies say_hello = ''logger'' # []"
    by (simp add: resolve_dependencies_def or_empty_def def_annotations_def say_hello_def
        Depends_def str_anno_def None_anno_def)
  have h2: "\<forall>d \<in> set (resolve_dependencies say_hello). dict_contains d ?src"
    by (simp add: deps dict_contains_def)
  have h3: "dict_contains ''logger'' ?src"
    by (simp add: dict_contains_def)
  have h4: "map_of ([] :: string dict dict) DEP_VAR = None"
    by simp
  have h5: "f_back (Frame [] None :: string frame) = None"
    by simp
  have h6: "distinct (map fst ?src)"
    by simp
  have enter: "context_enter ?src (Frame [] None) = Some (Frame [(DEP_VAR, ?src)] None)"
    by (simp add: context_enter_outermost dict_or_def)
  show ?thesis
    using h1 deps h2 h3 h4 h5 h6 enter
      with_context_resolves_against_calling_frame [where locals = "[(DEP_VAR, ?src)]"
        and source = ?src and func = say_hello and kwargs = "[]" and call = ?call
        and caller = "Some (Frame [(DEP_VAR, [(''logger'', ''other'')])] None)"
        and args = "[''Kotlin'']" and s = "()" and locals' = "[]" and d = "''logger''"
        and ds = "[]" and caller' = "Some (Frame [(DEP_VAR, ?src)] None)"
        and frame = "Frame [] None" and deps = ?src]
    by auto
qed

section \<open>The exception\<close>

lemma DependencyNotFoundError_subclass_of_KeyError:
  "issubclass DependencyNotFoundError KeyError"
  by (simp add: issubclass.simps)

text \<open>
  C9. \<open>DependencyNotFoundError\<close> is a subclass of \<open>KeyError\<close> constructed with the missing
  name: an instance has \<open>args = (name,)\<close> and the attributes \<open>name\<close>, \<open>func\<close> and \<open>available\<close>
  it was constructed with, it is an instance of \<open>KeyError\<close> (and of \<open>LookupError\<close> and
  \<open>Exception\<close>), and a handler for \<open>KeyError\<close> catches it. Exceptions are values here:
  nothing in the module assigns to the attributes after \<open>__init__\<close>.
\<close>

theorem DependencyNotFoundError_is_a_KeyError:
  fixes handler :: "'x py_exception \<Rightarrow> 's \<Rightarrow> ('x py_exception + 'r) \<times> 's"
  shows "bases DependencyNotFoundError = Some KeyError
         \<and> isinstance (DependencyNotFoundError_init name func available :: 'x py_exception) KeyError
         \<and> isinstance (DependencyNotFoundError_init name func available :: 'x py_exception) LookupError
         \<and> isinstance (DependencyNotFoundError_init name func available :: 'x py_exception) Exception
         \<and> exc_args (DependencyNotFoundError_init name func available :: 'x py_exception) = [name]
         \<and> exc_name (DependencyNotFoundError_init name func available :: 'x py_exception) = name
         \<and> exc_func (DependencyNotFoundError_init name func available :: 'x py_exception) = func
         \<and> exc_available (DependencyNotFoundError_init name func available :: 'x py_exception)
             = available
         \<and> try_except KeyError handler (Inl (DependencyNotFoundError_init name func available), s)
             = handler (DependencyNotFoundError_init name func available) s"
  by (simp add: DependencyNotFoundError_init_def isinstance_def try_except_def issubclass.simps)

section \<open>Nested scopes\<close>

text \<open>
  C1. With an outer scope binding \<open>n\<close> and an inner scope rebinding it, a wrapped function
  requiring \<open>n\<close> gets the inner value inside the inner scope and the outer value again
  after the inner scope exits. The code restores nothing: each \<open>context\<close> assigns the one
  variable \<open>DEP_VAR\<close> of the frame and its \<open>finally\<close> pops that variable. Here
  \<open>with context(n=1): with context(n=2): f()\<close> followed by \<open>f()\<close> runs in the outermost
  frame: inside the inner scope \<open>f\<close> gets \<open>n = 2\<close>; the exit of the inner scope leaves the
  frame with no bindings, so the second \<open>f()\<close>, still inside the outer scope, raises
  \<open>DependencyNotFoundError\<close>; and the exit of the outer scope raises \<open>KeyError\<close>.
\<close>

theorem inner_scope_exit_drops_outer_bindings:
  "context_enter [(''n'', 1::int)] (Frame [] None)
     = Some (Frame [(DEP_VAR, [(''n'', 1)])] None)
   \<and> context_enter [(''n'', 2::int)] (Frame [(DEP_VAR, [(''n'', 1)])] None)
     = Some (Frame [(DEP_VAR, [(''n'', 2)])] None)
   \<and> with_context \<lparr> func_name = ''f'', dunder_annotations =
          Some (def_annotations [(''n'', Some Depends)] None) \<rparr>
        (\<lambda>fr args kwargs s. ((Inr (map_of kwargs ''n'') :: unit py_exception + int option), s))
        (Frame [(DEP_VAR, [(''n'', 2)])] None) [] [] ()
     = (Inr (Some 2), ())
   \<and> (context_exit (Frame [(DEP_VAR, [(''n'', 2::int)])] None) :: unit py_exception + int frame)
     = Inr (Frame [] None)
   \<and> with_context \<lparr> func_name = ''f'', dunder_annotations =
          Some (def_annotations [(''n'', Some Depends)] None) \<rparr>
        (\<lambda>fr args kwargs s. ((Inr (map_of kwargs ''n'') :: unit py_exception + int option), s))
        (Frame [] None) [] [] ()
     = (Inl (DependencyNotFoundError_inst [''n''] ''n''
          \<lparr> func_name = ''f'', dunder_annotations =
            Some (def_annotations [(''n'', Some Depends)] None) \<rparr> []), ())
   \<and> (context_exit (Frame [] None :: int frame) :: unit py_exception + int frame)
     = Inl (KeyError_inst [DEP_VAR])"
proof -
  let ?f = "\<lparr> func_name = ''f'', dunder_annotations =
          Some (def_annotations [(''n'', Some Depends)] None) \<rparr>"
  let ?call = "\<lambda>(fr :: int frame) (args :: int list) (kwargs :: int dict) (s :: unit).
          ((Inr (map_of kwargs ''n'') :: unit py_exception + int option), s)"
  have deps: "resolve_dependencies ?f = [''n'']"
    by (simp add: resolve_dependencies_def or_empty_def def_annotations_def Depends_def)
  have outer: "context_enter [(''n'', 1::int)] (Frame [] None)
     = Some (Frame [(DEP_VAR, [(''n'', 1)])] None)"
    by (simp add: context_enter_outermost dict_or_def)
  have inner: "context_enter [(''n'', 2::int)] (Frame [(DEP_VAR, [(''n'', 1)])] None)
     = Some (Frame [(DEP_VAR, [(''n'', 2)])] None)"
    by (simp add: context_enter_outermost dict_or_def)
  have inside: "with_context ?f ?call (Frame [(DEP_VAR, [(''n'', 2)])] None) [] [] ()
     = (Inr (Some 2), ())"
    by (simp add: with_context_def deps dict_get_def)
  have leave: "(context_exit (Frame [(DEP_VAR, [(''n'', 2::int)])] None)
       :: unit py_exception + int frame) = Inr (Frame [] None)"
    by (simp add: context_exit_def dict_contains_def AList.delete_eq)
  have after: "with_context ?f ?call (Frame [] None) [] [] ()
     = (Inl (DependencyNotFoundError_inst [''n''] ''n'' ?f []), ())"
    by (simp add: with_context_def deps dict_get_def dict_keys_def
        DependencyNotFoundError_init_def)
  have last: "(context_exit (Frame [] None :: int frame) :: unit py_exception + int frame)
     = Inl (KeyError_inst [DEP_VAR])"
    by (simp add: context_exit_def dict_contains_def)
  show ?thesis
    using outer inner inside leave after last by simp
qed

lemma with_stmt_restores_frame_without_scope:
  assumes "f_back frame = None"
    and "\<not> dict_contains DEP_VAR (f_locals frame)"
    and "\<And>fr. body fr = Some (outcome, fr)"
  shows "with_stmt deps body frame = Some (outcome, frame)"
proof -
  obtain locals where fr: "frame = Frame locals None"
    using assms(1) by (cases frame) simp
  have "DEP_VAR \<notin> fst ` set locals"
    using assms(2) by (simp add: fr dict_contains_def map_of_eq_None_iff)
  then have "AList.delete DEP_VAR locals = locals"
    by (rule delete_id)
  then show ?thesis
    by (simp add: fr with_stmt_def context_enter_outermost assms(3) context_exit_def
        dict_contains_def update_conv' delete_update_same)
qed

text \<open>
  C6. Whether the body of a scope completes or raises, on exit the layer pushed at
  entry is removed and the effective context is the one before entry. The \<open>finally\<close>
  clause does run in both cases, but it pops the variable of the frame instead of
  putting back what entry replaced. Here \<open>with context(a=2): body\<close> runs in the outermost
  frame inside \<open>with context(a=1)\<close>, with a body that raises and with one that completes:
  before entry the effective context is \<open>{a: 1}\<close>, after exit it is empty both times, and
  the outer \<open>with\<close> statement then ends with the \<open>KeyError\<close> of its own \<open>pop\<close> in place of
  the outcome of its body.
\<close>

theorem scope_exit_leaves_no_enclosing_bindings:
  "dict_get (f_locals (Frame [(DEP_VAR, [(''a'', 1::int)])] None)) DEP_VAR [] = [(''a'', 1)]
   \<and> with_stmt [(''a'', 2::int)]
        (\<lambda>fr. Some ((Inl (Raised Exception ''boom'') :: string py_exception + unit), fr))
        (Frame [(DEP_VAR, [(''a'', 1)])] None)
     = Some (Inl (Raised Exception ''boom''), Frame [] None)
   \<and> with_stmt [(''a'', 2::int)]
        (\<lambda>fr. Some ((Inr () :: string py_exception + unit), fr))
        (Frame [(DEP_VAR, [(''a'', 1)])] None)
     = Some (Inr (), Frame [] None)
   \<and> dict_get (f_locals (Frame [] None :: int frame)) DEP_VAR [] = []
   \<and> with_stmt [(''a'', 1::int)]
        (with_stmt [(''a'', 2::int)]
           (\<lambda>fr. Some ((Inl (Raised Exception ''boom'') :: string py_exception + unit), fr)))
        (Frame [] None)
     = Some (Inl (KeyError_inst [DEP_VAR]), Frame [] None)
   \<and> with_stmt [(''a'', 1::int)]
        (with_stmt [(''a'', 2::int)]
           (\<lambda>fr. Some ((Inr () :: string py_exception + unit), fr)))
        (Frame [] None)
     = Some (Inl (KeyError_inst [DEP_VAR]), Frame [] None)"
proof -
  let ?raise = "\<lambda>fr :: int frame.
      Some ((Inl (Raised Exception ''boom'') :: string py_exception + unit), fr)"
  let ?pass = "\<lambda>fr :: int frame. Some ((Inr () :: string py_exception + unit), fr)"
  let ?outer = "Frame [(DEP_VAR, [(''a'', 1::int)])] None"
  have before: "dict_get (f_locals ?outer) DEP_VAR [] = [(''a'', 1)]"
    by (simp add: dict_get_def)
  have raised: "with_stmt [(''a'', 2::int)] ?raise ?outer
      = Some (Inl (Raised Exception ''boom''), Frame [] None)"
    by (simp add: with_stmt_def context_enter_outermost context_exit_def dict_contains_def
        dict_or_def)
  have passed: "with_stmt [(''a'', 2::int)] ?pass ?outer = Some (Inr (), Frame [] None)"
    by (simp add: with_stmt_def context_enter_outermost context_exit_def dict_contains_def
        dict_or_def)
  have after: "dict_get (f_locals (Frame [] None :: int frame)) DEP_VAR [] = []"
    by (simp add: dict_get_def)
  have enter: "context_enter [(''a'', 1::int)] (Frame [] None) = Some ?outer"
    by (simp add: context_enter_outermost dict_or_def)
  have last: "(context_exit (Frame [] None :: int frame) :: string py_exception + int frame)
      = Inl (KeyError_inst [DEP_VAR])"
    by (simp add: context_exit_def dict_contains_def)
  have nested_raise: "with_stmt [(''a'', 1::int)] (with_stmt [(''a'', 2::int)] ?raise)
        (Frame [] None) = Some (Inl (KeyError_inst [DEP_VAR]), Frame [] None)"
    unfolding with_stmt_def [of "[(''a'', 1::int)]"] enter
    by (simp add: raised last)
  have nested_pass: "with_stmt [(''a'', 1::int)] (with_stmt [(''a'', 2::int)] ?pass)
        (Frame [] None) = Some (Inl (KeyError_inst [DEP_VAR]), Frame [] None)"
    unfolding with_stmt_def [of "[(''a'', 1::int)]"] enter
    by (simp add: passed last)
  show ?thesis
    using before raised passed after nested_raise nested_pass by simp
qed

end
